theory Spec2Isabelle
  imports Complex_Main
begin

section \<open>Python values and exceptions\<close>

text \<open>
  The module \<^verbatim>\<open>alinea/astk/TimeControl.py\<close> is Python 2 code (it calls
  \<^verbatim>\<open>.next()\<close>, \<^verbatim>\<open>iteritems\<close>, the builtin \<^verbatim>\<open>reduce\<close> and defines
  \<^verbatim>\<open>__nonzero__\<close>), so the embedding follows the Python 2 semantics of these
  constructs. Payloads and attribute values are dynamically typed; \<open>pyval\<close> keeps the
  values the module distinguishes: \<^verbatim>\<open>None\<close>, the two booleans, integers, strings and
  opaque objects (identified by a number). The integer \<open>0\<close> and \<^verbatim>\<open>False\<close> are
  different values, as they are different objects for the test \<^verbatim>\<open>is not False\<close>.
\<close>

datatype pyval = PNone | PBool bool | PInt int | PStr string | PObj nat

datatype error =
  StopIteration | TypeError | ZeroDivisionError | AttributeError | IndexError
  | ValueError | Raised string

text \<open>\<^verbatim>\<open>range(n)\<close> of Python 2: the list \<open>0, ..., n - 1\<close>, empty when \<open>n \<le> 0\<close>.\<close>

definition range_py :: "int \<Rightarrow> int list" where
  "range_py n = map int [0..<nat n]"

text \<open>\<^verbatim>\<open>i % delay\<close> with \<open>i\<close> an integer and \<open>delay\<close> an integer or \<^verbatim>\<open>None\<close>. The
  result has the sign of the divisor, as \<open>mod\<close> on \<open>int\<close> has.\<close>

definition py_mod :: "int \<Rightarrow> int option \<Rightarrow> error + int" where
  "py_mod i delay =
     (case delay of
        None \<Rightarrow> Inl TypeError
      | Some d \<Rightarrow> if d = 0 then Inl ZeroDivisionError else Inr (i mod d))"

definition pyint :: "int option \<Rightarrow> pyval" where
  "pyint v = (case v of None \<Rightarrow> PNone | Some n \<Rightarrow> PInt n)"

text \<open>\<^verbatim>\<open>int(d)\<close> of a number: truncation towards zero. Numbers are modelled as exact
  rationals (integers included).\<close>

definition py_int :: "rat \<Rightarrow> int" where
  "py_int d = (if 0 \<le> d then \<lfloor>d\<rfloor> else \<lceil>d\<rceil>)"

text \<open>\<^verbatim>\<open>reduce(f, xs)\<close> with no initial value: a \<^verbatim>\<open>TypeError\<close> on the empty
  sequence, otherwise the left fold that starts from the first element.\<close>

fun reduce :: "('a \<Rightarrow> 'a \<Rightarrow> 'a) \<Rightarrow> 'a list \<Rightarrow> error + 'a" where
  "reduce f [] = Inl TypeError"
| "reduce f (x # xs) = Inr (foldl f x xs)"

section \<open>TimeControlSet\<close>

text \<open>
  A \<^verbatim>\<open>TimeControlSet\<close> is an old-style instance whose state is its \<^verbatim>\<open>__dict__\<close>.
  Attribute lookup on it answers \<^verbatim>\<open>__dict__\<close> and \<^verbatim>\<open>__class__\<close> itself, then reads
  the instance dictionary, then the class dictionary (\<^verbatim>\<open>__module__\<close>, \<^verbatim>\<open>__doc__\<close>,
  \<^verbatim>\<open>__init__\<close>, \<^verbatim>\<open>check\<close>), and raises \<^verbatim>\<open>AttributeError\<close> otherwise.
  \<^verbatim>\<open>hasattr\<close> is \<^verbatim>\<open>getattr\<close> with the exception caught.
\<close>

type_synonym TimeControlSet = "string \<rightharpoonup> pyval"

definition TimeControlSet_init :: "(string \<rightharpoonup> pyval) \<Rightarrow> TimeControlSet" where
  "TimeControlSet_init kwd = Map.empty ++ kwd"

definition class_dict :: "string \<rightharpoonup> pyval" where
  "class_dict =
     [''__module__'' \<mapsto> PStr ''alinea.astk.TimeControl'', ''__doc__'' \<mapsto> PNone,
      ''__init__'' \<mapsto> PObj 0, ''check'' \<mapsto> PObj 1]"

definition getattr :: "TimeControlSet \<Rightarrow> string \<Rightarrow> error + pyval" where
  "getattr self attname =
     (if attname = ''__dict__'' then Inr (PObj 2)
      else if attname = ''__class__'' then Inr (PObj 3)
      else case self attname of
             Some v \<Rightarrow> Inr v
           | None \<Rightarrow> (case class_dict attname of
                        Some v \<Rightarrow> Inr v
                      | None \<Rightarrow> Inl AttributeError))"

definition hasattr :: "TimeControlSet \<Rightarrow> string \<Rightarrow> bool" where
  "hasattr self attname = (case getattr self attname of Inl e \<Rightarrow> False | Inr v \<Rightarrow> True)"

text \<open>\<^verbatim>\<open>setattr\<close> stores into the instance dictionary; assigning a \<open>pyval\<close> to
  \<^verbatim>\<open>__dict__\<close> or \<^verbatim>\<open>__class__\<close> is a \<^verbatim>\<open>TypeError\<close>.\<close>

definition setattr :: "TimeControlSet \<Rightarrow> string \<Rightarrow> pyval \<Rightarrow> error + TimeControlSet" where
  "setattr self attname v =
     (if attname = ''__dict__'' \<or> attname = ''__class__'' then Inl TypeError
      else Inr (self(attname \<mapsto> v)))"

definition check :: "TimeControlSet \<Rightarrow> string \<Rightarrow> pyval \<Rightarrow> error + TimeControlSet" where
  "check self attname defaultvalue =
     (if \<not> hasattr self attname then setattr self attname defaultvalue else Inr self)"

section \<open>simple\_delay\_timing\<close>

text \<open>
  \<^verbatim>\<open>simple_delay_timing\<close> returns a generator expression. Creating it evaluates
  \<^verbatim>\<open>range(steps)\<close> at once (a \<^verbatim>\<open>TypeError\<close> when \<open>steps\<close> is \<^verbatim>\<open>None\<close>); the element
  expression, with its \<^verbatim>\<open>i % delay\<close>, runs only when the generator is advanced. A
  generator that raised is finished. The arguments are integers or \<^verbatim>\<open>None\<close>.
\<close>

record genexpr =
  g_delay :: "int option"
  g_iter :: "int list"

definition simple_delay_timing :: "int option \<Rightarrow> int option \<Rightarrow> error + genexpr" where
  "simple_delay_timing delay steps =
     (case steps of
        None \<Rightarrow> Inl TypeError
      | Some n \<Rightarrow> Inr \<lparr>g_delay = delay, g_iter = range_py n\<rparr>)"

definition genexpr_next :: "genexpr \<Rightarrow> (error + TimeControlSet) \<times> genexpr" where
  "genexpr_next g =
     (case g_iter g of
        [] \<Rightarrow> (Inl StopIteration, g)
      | i # rest \<Rightarrow>
          (case py_mod i (g_delay g) of
             Inl e \<Rightarrow> (Inl e, g\<lparr>g_iter := []\<rparr>)
           | Inr r \<Rightarrow>
               (Inr (if r = 0 then TimeControlSet_init [''dt'' \<mapsto> pyint (g_delay g)]
                     else TimeControlSet_init [''dt'' \<mapsto> PInt 0]),
                g\<lparr>g_iter := rest\<rparr>)))"

text \<open>Consuming an iterator as a \<^verbatim>\<open>for\<close> loop does: the items yielded, then the
  exception that ended it (\<^verbatim>\<open>StopIteration\<close> for a normal end).\<close>

function genexpr_drain :: "genexpr \<Rightarrow> TimeControlSet list \<times> error" where
  "genexpr_drain g =
     (case genexpr_next g of
        (Inl e, g') \<Rightarrow> ([], e)
      | (Inr b, g') \<Rightarrow> (b # fst (genexpr_drain g'), snd (genexpr_drain g')))"
  by pat_completeness auto
termination
  by (relation "measure (\<lambda>g. length (g_iter g))")
    (auto simp: genexpr_next_def split: list.splits sum.splits)

declare genexpr_drain.simps [simp del]

text \<open>The results of \<open>n\<close> successive calls of \<^verbatim>\<open>next\<close> on the generator.\<close>

fun genexpr_take :: "nat \<Rightarrow> genexpr \<Rightarrow> (error + TimeControlSet) list" where
  "genexpr_take 0 g = []"
| "genexpr_take (Suc n) g = fst (genexpr_next g) # genexpr_take n (snd (genexpr_next g))"

section \<open>TimeControl\<close>

text \<open>
  A model is an object that may have a \<^verbatim>\<open>timing\<close> method; the method receives
  \<open>delay\<close>, \<open>steps\<close>, \<open>weather\<close> and \<open>start_date\<close> and either raises when it is
  called or returns an object. Whatever that object is, the constructor stores it, and
  only \<^verbatim>\<open>next\<close> is ever called on it; so it is represented by what its successive
  calls of \<^verbatim>\<open>next\<close> do: call number \<open>k\<close> (from 0) yields a bundle or raises an
  exception. This covers a finite sequence (\<^verbatim>\<open>StopIteration\<close> from some call on), a
  generator whose body fails when it is first advanced, and an object with no
  \<^verbatim>\<open>next\<close> at all (\<^verbatim>\<open>AttributeError\<close> at every call). \<^verbatim>\<open>model = None\<close> is
  \<open>None :: model option\<close>, on which the attribute access \<^verbatim>\<open>model.timing\<close> raises
  \<^verbatim>\<open>AttributeError\<close>.
\<close>

type_synonym model_iter = "nat \<Rightarrow> error + TimeControlSet"

type_synonym timing_fn =
  "int option \<Rightarrow> int option \<Rightarrow> pyval \<Rightarrow> pyval \<Rightarrow> error + model_iter"

datatype model = Model (timing: "timing_fn option")

text \<open>The live generator of a \<^verbatim>\<open>TimeControl\<close>: the object returned by the model with
  the number of calls of \<^verbatim>\<open>next\<close> made so far, or the generator of
  \<^verbatim>\<open>simple_delay_timing\<close>.\<close>

datatype stepiter = ModelIter model_iter nat | Fallback genexpr

record TimeControl =
  tc_delay :: "int option"
  tc_steps :: "int option"
  tc_model :: "model option"
  tc_weather :: pyval
  tc_start_date :: pyval
  tc_timing :: stepiter

definition call_timing ::
  "model option \<Rightarrow> int option \<Rightarrow> int option \<Rightarrow> pyval \<Rightarrow> pyval \<Rightarrow> error + model_iter"
where
  "call_timing m delay steps weather start_date =
     (case m of
        None \<Rightarrow> Inl AttributeError
      | Some (Model None) \<Rightarrow> Inl AttributeError
      | Some (Model (Some f)) \<Rightarrow> f delay steps weather start_date)"

text \<open>The constructor: the printed lines and the object, or the exception that left
  \<^verbatim>\<open>__init__\<close>. The outer \<^verbatim>\<open>try\<close> encloses the call of \<^verbatim>\<open>model.timing\<close> only, not
  the later calls of \<^verbatim>\<open>next\<close> on what it returned. The last call,
  \<^verbatim>\<open>simple_delay_timing()\<close>, is outside every \<^verbatim>\<open>try\<close>.\<close>

definition TimeControl_init ::
  "int option \<Rightarrow> int option \<Rightarrow> model option \<Rightarrow> pyval \<Rightarrow> pyval
     \<Rightarrow> string list \<times> (error + TimeControl)"
where
  "TimeControl_init delay steps m weather start_date =
     (let self = (\<lambda>t. \<lparr>tc_delay = delay, tc_steps = steps, tc_model = m,
                         tc_weather = weather, tc_start_date = start_date, tc_timing = t\<rparr>)
      in case call_timing m delay steps weather start_date of
           Inr it \<Rightarrow> ([], Inr (self (ModelIter it 0)))
         | Inl e \<Rightarrow>
             (let out = (if m \<noteq> None
                         then [''Warning : not able to call model.timing correctly !!!'']
                         else [])
              in case simple_delay_timing delay steps of
                   Inr g \<Rightarrow> (out, Inr (self (Fallback g)))
                 | Inl e' \<Rightarrow>
                     (case simple_delay_timing (Some 1) (Some 1) of
                        Inr g \<Rightarrow> (out, Inr (self (Fallback g)))
                      | Inl e'' \<Rightarrow> (out, Inl e''))))"

definition TimeControl_iter :: "TimeControl \<Rightarrow> string list \<times> (error + TimeControl)" where
  "TimeControl_iter self =
     TimeControl_init (tc_delay self) (tc_steps self) (tc_model self) (tc_weather self)
       (tc_start_date self)"

definition stepiter_next :: "stepiter \<Rightarrow> (error + TimeControlSet) \<times> stepiter" where
  "stepiter_next t =
     (case t of
        ModelIter it k \<Rightarrow> (it k, ModelIter it (Suc k))
      | Fallback g \<Rightarrow> (fst (genexpr_next g), Fallback (snd (genexpr_next g))))"

definition TimeControl_next :: "TimeControl \<Rightarrow> (error + TimeControlSet) \<times> TimeControl" where
  "TimeControl_next self =
     (fst (stepiter_next (tc_timing self)),
      self\<lparr>tc_timing := snd (stepiter_next (tc_timing self))\<rparr>)"

text \<open>The results of \<open>n\<close> successive calls of \<^verbatim>\<open>next\<close>.\<close>

fun TimeControl_take :: "nat \<Rightarrow> TimeControl \<Rightarrow> (error + TimeControlSet) list" where
  "TimeControl_take 0 self = []"
| "TimeControl_take (Suc n) self =
     fst (TimeControl_next self) # TimeControl_take n (snd (TimeControl_next self))"

section \<open>TimingElement, delay\_to\_timing and Timing\<close>

datatype TimingElement = TimingElement (data: pyval)

definition nonzero :: "TimingElement \<Rightarrow> bool" where
  "nonzero self = (if data self \<noteq> PBool False then True else False)"

text \<open>The two list comprehensions of \<^verbatim>\<open>delay_to_timing\<close> (\<^verbatim>\<open>zip\<close> stops at the
  shorter list), then the \<^verbatim>\<open>reduce\<close> that concatenates the blocks.\<close>

definition delay_to_timing :: "rat list \<Rightarrow> pyval list option \<Rightarrow> error + pyval list" where
  "delay_to_timing delays datas =
     (let timing =
        (case datas of
           Some ds \<Rightarrow>
             map (\<lambda>(d, dat). map (\<lambda>i. if i = 0 then dat else PBool False) (range_py (py_int d)))
               (zip delays ds)
         | None \<Rightarrow>
             map (\<lambda>d. map (\<lambda>i. if i = 0 then PBool True else PBool False) (range_py (py_int d)))
               delays)
      in reduce (\<lambda>x y. x @ y) timing)"

record Timing =
  t_delays :: "rat list"
  t_datas :: "pyval list option"
  t_timing :: "TimingElement list"

definition Timing_init :: "rat list \<Rightarrow> pyval list option \<Rightarrow> error + Timing" where
  "Timing_init delays datas =
     (case delay_to_timing delays datas of
        Inl e \<Rightarrow> Inl e
      | Inr xs \<Rightarrow> Inr \<lparr>t_delays = delays, t_datas = datas, t_timing = map TimingElement xs\<rparr>)"

definition Timing_iter :: "Timing \<Rightarrow> error + Timing" where
  "Timing_iter self = Timing_init (t_delays self) (t_datas self)"

definition Timing_next :: "Timing \<Rightarrow> (error + TimingElement) \<times> Timing" where
  "Timing_next self =
     (case t_timing self of
        [] \<Rightarrow> (Inl StopIteration, self)
      | x # rest \<Rightarrow> (Inr x, self\<lparr>t_timing := rest\<rparr>))"

text \<open>The object after \<open>n\<close> calls of \<^verbatim>\<open>next\<close>.\<close>

fun Timing_advance :: "nat \<Rightarrow> Timing \<Rightarrow> Timing" where
  "Timing_advance 0 self = self"
| "Timing_advance (Suc n) self = Timing_advance n (snd (Timing_next self))"

function Timing_drain :: "Timing \<Rightarrow> TimingElement list \<times> error" where
  "Timing_drain self =
     (case Timing_next self of
        (Inl e, self') \<Rightarrow> ([], e)
      | (Inr x, self') \<Rightarrow> (x # fst (Timing_drain self'), snd (Timing_drain self')))"
  by pat_completeness auto
termination
  by (relation "measure (\<lambda>self. length (t_timing self))")
    (auto simp: Timing_next_def split: list.splits)

declare Timing_drain.simps [simp del]

section \<open>TimeControler\<close>

text \<open>
  The controler holds a dictionary from stream names to iterables of any kind; the
  methods it calls on them, \<^verbatim>\<open>next\<close> and \<^verbatim>\<open>iter\<close>, are parameters of the model.
  The dictionary is an association list with distinct keys, in the order in which
  \<^verbatim>\<open>iteritems\<close> visits it.

  Both methods build \<^verbatim>\<open>dict(<generator expression>)\<close>. In Python 2 an exception that
  leaves the element expression leaves the generator; \<^verbatim>\<open>dict\<close> takes a
  \<^verbatim>\<open>StopIteration\<close> coming out of the generator as the end of its input and returns the
  dictionary of the pairs received so far, and lets any other exception through. The
  streams visited up to that point have been advanced.
\<close>

fun dict_genexpr ::
  "('s \<Rightarrow> (error + 'a) \<times> 's) \<Rightarrow> (string \<times> 's) list
     \<Rightarrow> (error + (string \<times> 'a) list) \<times> (string \<times> 's) list"
where
  "dict_genexpr f [] = (Inr [], [])"
| "dict_genexpr f ((k, v) # rest) =
     (case f v of
        (Inl e, v') \<Rightarrow> (if e = StopIteration then Inr [] else Inl e, (k, v') # rest)
      | (Inr x, v') \<Rightarrow>
          (case dict_genexpr f rest of
             (Inl e, rest') \<Rightarrow> (Inl e, (k, v') # rest')
           | (Inr d, rest') \<Rightarrow> (Inr ((k, x) # d), (k, v') # rest')))"

record 's TimeControler =
  timedict :: "(string \<times> 's) list"
  numiter :: nat

definition TimeControler_init :: "(string \<times> 's) list \<Rightarrow> 's TimeControler" where
  "TimeControler_init kwd = \<lparr>timedict = kwd, numiter = 0\<rparr>"

definition TimeControler_iter ::
  "('s \<Rightarrow> error + 's) \<Rightarrow> 's TimeControler \<Rightarrow> error + 's TimeControler"
where
  "TimeControler_iter iter self =
     (case fst (dict_genexpr (\<lambda>v. (iter v, v)) (timedict self)) of
        Inl e \<Rightarrow> Inl e
      | Inr d \<Rightarrow> Inr (self\<lparr>timedict := d, numiter := 0\<rparr>))"

definition TimeControler_next ::
  "('s \<Rightarrow> (error + 'a) \<times> 's) \<Rightarrow> 's TimeControler
     \<Rightarrow> (error + (string \<times> 'a) list) \<times> 's TimeControler"
where
  "TimeControler_next next self =
     (case dict_genexpr next (timedict self) of
        (Inl e, td) \<Rightarrow> (Inl e, self\<lparr>timedict := td\<rparr>)
      | (Inr d, td) \<Rightarrow>
          if length d = 0 then (Inl StopIteration, self\<lparr>timedict := td\<rparr>)
          else (Inr d, self\<lparr>timedict := td, numiter := numiter self + 1\<rparr>))"

text \<open>The results of \<open>n\<close> successive calls of \<^verbatim>\<open>next\<close>.\<close>

fun TimeControler_take ::
  "('s \<Rightarrow> (error + 'a) \<times> 's) \<Rightarrow> nat \<Rightarrow> 's TimeControler \<Rightarrow> (error + (string \<times> 'a) list) list"
where
  "TimeControler_take next 0 self = []"
| "TimeControler_take next (Suc n) self =
     fst (TimeControler_next next self)
       # TimeControler_take next n (snd (TimeControler_next next self))"

section \<open>time\_split\<close>

text \<open>
  Timestamps are whole seconds on some time axis. \<^verbatim>\<open>total_seconds() / 3600\<close> is
  the offset in hours, taken as an exact rational; \<^verbatim>\<open>t % delay\<close> on it is
  \<open>t - \<lfloor>t / delay\<rfloor> * delay\<close>, a \<^verbatim>\<open>ZeroDivisionError\<close> for \<open>delay = 0\<close>.
\<close>

definition hours :: "int \<Rightarrow> int \<Rightarrow> rat" where
  "hours t t0 = of_int (t - t0) / 3600"

definition py_fmod :: "rat \<Rightarrow> int \<Rightarrow> error + rat" where
  "py_fmod t delay =
     (if delay = 0 then Inl ZeroDivisionError
      else Inr (t - of_int \<lfloor>t / of_int delay\<rfloor> * of_int delay))"

text \<open>Modelled from the spec: the pandas operation \<^verbatim>\<open>time_sequence[-1] + 1\<close> is not
  part of the sources; the specification gives its result as one hour past the
  timestamp.\<close>

definition timestamp_succ :: "int \<Rightarrow> int" where
  "timestamp_succ t = t + 3600"

text \<open>\<^verbatim>\<open>filter = [t % delay == 0 for t in time]\<close>: the first failing element raises.\<close>

fun filter_mask :: "rat list \<Rightarrow> int \<Rightarrow> error + bool list" where
  "filter_mask [] delay = Inr []"
| "filter_mask (t # time) delay =
     (case py_fmod t delay of
        Inl e \<Rightarrow> Inl e
      | Inr r \<Rightarrow>
          (case filter_mask time delay of
             Inl e \<Rightarrow> Inl e
           | Inr bs \<Rightarrow> Inr ((r = 0) # bs)))"

text \<open>\<^verbatim>\<open>time_sequence[filter]\<close>: selection by a boolean mask.\<close>

definition mask_select :: "'a list \<Rightarrow> bool list \<Rightarrow> 'a list" where
  "mask_select xs flags = map fst (filter snd (zip xs flags))"

text \<open>
  \<^verbatim>\<open>time_split\<close>. The weather table is used only through
  \<^verbatim>\<open>truncate(before = start, after = end).ix[:-1,]\<close>, so it is represented by that
  operation. The comprehension for \<open>time\<close> reads \<^verbatim>\<open>time_sequence[0]\<close> once per element,
  hence never on the empty sequence; \<^verbatim>\<open>time_sequence[-1]\<close> is an \<^verbatim>\<open>IndexError\<close> there,
  and unpacking \<^verbatim>\<open>zip(*events)\<close> of no event is a \<^verbatim>\<open>ValueError\<close>.
\<close>

definition time_split ::
  "int list \<Rightarrow> (int \<Rightarrow> int \<Rightarrow> 'd) option \<Rightarrow> int \<Rightarrow> error + (rat list \<times> 'd option list)"
where
  "time_split time_sequence weather_data delay =
     (let time = (case time_sequence of [] \<Rightarrow> [] | t0 # ts \<Rightarrow> map (\<lambda>t. hours t t0) time_sequence)
      in case filter_mask time delay of
           Inl e \<Rightarrow> Inl e
         | Inr flags \<Rightarrow>
             (let starts = mask_select time_sequence flags
              in if time_sequence = [] then Inl IndexError
                 else
                   (let ends = tl starts @ [timestamp_succ (last time_sequence)];
                        events =
                          (case weather_data of
                             Some slice \<Rightarrow>
                               map (\<lambda>(start, end). (hours end start, Some (slice start end)))
                                 (zip starts ends)
                           | None \<Rightarrow>
                               map (\<lambda>(start, end). (hours end start, None)) (zip starts ends))
                    in if events = [] then Inl ValueError
                       else Inr (map fst events, map snd events))))"

section \<open>Specification-side definitions\<close>

text \<open>
  The block of the specification for one duration: \<open>n\<close> entries, the first the
  payload, the others \<^verbatim>\<open>False\<close>. The payload of block \<open>i\<close> is \<open>datas[i]\<close>, or
  \<^verbatim>\<open>True\<close> when no \<open>datas\<close> is given.
\<close>

fun block_spec :: "nat \<Rightarrow> pyval \<Rightarrow> pyval list" where
  "block_spec 0 dat = []"
| "block_spec (Suc k) dat = dat # replicate k (PBool False)"

definition payload_spec :: "pyval list option \<Rightarrow> nat \<Rightarrow> pyval" where
  "payload_spec datas i = (case datas of None \<Rightarrow> PBool True | Some ds \<Rightarrow> ds ! i)"

definition same_length :: "rat list \<Rightarrow> pyval list option \<Rightarrow> bool" where
  "same_length delays datas = (case datas of None \<Rightarrow> True | Some ds \<Rightarrow> length ds = length delays)"

text \<open>
  The blocks of the specification for \<^verbatim>\<open>time_split\<close>: a timestamp starts a block
  when its offset in hours from the first timestamp is an exact multiple of
  \<open>delay\<close>; a block ends at the next start, the last one an hour (3600 seconds) past
  the final timestamp.
\<close>

definition exact_multiple :: "rat \<Rightarrow> int \<Rightarrow> bool" where
  "exact_multiple h delay = (\<exists>k::int. h = of_int k * of_int delay)"

definition block_starts :: "int list \<Rightarrow> int \<Rightarrow> int list" where
  "block_starts time_sequence delay =
     filter (\<lambda>t. exact_multiple (hours t (hd time_sequence)) delay) time_sequence"

definition block_ends :: "int list \<Rightarrow> int \<Rightarrow> int list" where
  "block_ends time_sequence delay =
     tl (block_starts time_sequence delay) @ [last time_sequence + 3600]"

section \<open>Properties of TimingElement and TimeControlSet\<close>

text \<open>
  Claim C9. The truth test of a \<^verbatim>\<open>TimingElement\<close> built from a payload answers false
  exactly when the payload is the value \<^verbatim>\<open>False\<close>; \<^verbatim>\<open>True\<close>, \<^verbatim>\<open>None\<close>, the
  integer \<open>0\<close> and every other payload make it answer true.
\<close>

theorem TimingElement_truth:
  "(\<not> nonzero (TimingElement payload)) = (payload = PBool False)"
  by (simp add: nonzero_def)

lemma hasattr_special:
  "hasattr self ''__dict__''" "hasattr self ''__class__''"
  by (simp_all add: hasattr_def getattr_def)

lemma check_result:
  "check self attname d = Inr (if hasattr self attname then self else self(attname \<mapsto> d))"
  using hasattr_special [of self]
  by (auto simp: check_def setattr_def)

lemma hasattr_upd:
  "attname \<noteq> ''__dict__'' \<Longrightarrow> attname \<noteq> ''__class__'' \<Longrightarrow>
   hasattr (self(attname \<mapsto> d)) attname"
  by (simp add: hasattr_def getattr_def)

lemma getattr_upd:
  "attname \<noteq> ''__dict__'' \<Longrightarrow> attname \<noteq> ''__class__'' \<Longrightarrow>
   getattr (self(attname \<mapsto> d)) attname = Inr d"
  by (simp add: getattr_def)

lemma getattr_upd_other:
  "other \<noteq> attname \<Longrightarrow> getattr (self(attname \<mapsto> d)) other = getattr self other"
  by (simp add: getattr_def)

text \<open>
  Claim C8. For every \<^verbatim>\<open>TimeControlSet\<close>, attribute name and default value,
  \<^verbatim>\<open>check\<close> returns normally; when the attribute is absent (\<^verbatim>\<open>hasattr\<close> is false)
  it reads as the default afterwards; when it is present the object is unchanged,
  whatever value the instance holds under that name (\<^verbatim>\<open>None\<close> and \<^verbatim>\<open>False\<close>
  included); no other attribute changes; and a second call, with any other default
  \<open>d'\<close>, changes nothing.
\<close>

theorem check_sets_only_absent:
  "\<exists>self'. check self attname d = Inr self' \<and>
     (\<not> hasattr self attname \<longrightarrow> getattr self' attname = Inr d) \<and>
     (hasattr self attname \<longrightarrow> self' = self) \<and>
     (\<forall>v. self attname = Some v \<longrightarrow> self' attname = Some v) \<and>
     (\<forall>other. other \<noteq> attname \<longrightarrow> getattr self' other = getattr self other) \<and>
     check self' attname d' = Inr self'"
proof (cases "hasattr self attname")
  case True
  then show ?thesis by (simp add: check_result)
next
  case False
  then have ne: "attname \<noteq> ''__dict__''" "attname \<noteq> ''__class__''"
    using hasattr_special [of self] by auto
  have absent: "self attname = None"
    using False by (auto simp: hasattr_def getattr_def split: if_splits option.splits)
  show ?thesis
    using False ne absent
    by (simp add: check_result hasattr_upd getattr_upd getattr_upd_other)
qed

theorem check_sets_only_absent_witness:
  "\<not> hasattr Map.empty ''dt'' \<and>
   check Map.empty ''dt'' (PInt 0) = Inr [''dt'' \<mapsto> PInt 0] \<and>
   check [''dt'' \<mapsto> PInt 0] ''dt'' (PInt 5) = Inr [''dt'' \<mapsto> PInt 0] \<and>
   hasattr [''dt'' \<mapsto> PBool False] ''dt'' \<and>
   check [''dt'' \<mapsto> PBool False] ''dt'' (PInt 5) = Inr [''dt'' \<mapsto> PBool False] \<and>
   check [''dt'' \<mapsto> PNone] ''dt'' (PInt 5) = Inr [''dt'' \<mapsto> PNone]"
proof -
  have absent: "\<not> hasattr Map.empty ''dt''"
    by (simp add: hasattr_def getattr_def class_dict_def)
  have present: "hasattr [''dt'' \<mapsto> v] ''dt''" for v
    by (simp add: hasattr_def getattr_def)
  from check_sets_only_absent [of Map.empty "''dt''" "PInt 0" "PInt 5"] absent
  obtain self' where s: "check Map.empty ''dt'' (PInt 0) = Inr self'"
    and again: "check self' ''dt'' (PInt 5) = Inr self'"
    by blast
  have self': "self' = [''dt'' \<mapsto> PInt 0]"
    using s absent by (simp add: check_def setattr_def)
  from check_sets_only_absent [of "[''dt'' \<mapsto> PBool False]" "''dt''" "PInt 5" "PInt 5"] present
  have f: "check [''dt'' \<mapsto> PBool False] ''dt'' (PInt 5) = Inr [''dt'' \<mapsto> PBool False]"
    by auto
  from check_sets_only_absent [of "[''dt'' \<mapsto> PNone]" "''dt''" "PInt 5" "PInt 5"] present
  have n: "check [''dt'' \<mapsto> PNone] ''dt'' (PInt 5) = Inr [''dt'' \<mapsto> PNone]"
    by auto
  show ?thesis using absent s again self' f n present by simp
qed

section \<open>Properties of delay\_to\_timing and Timing\<close>

lemma foldl_append_concat: "foldl (\<lambda>x y. x @ y) x xs = x @ concat xs"
  by (induction xs arbitrary: x) simp_all

lemma reduce_append: "xs \<noteq> [] \<Longrightarrow> reduce (\<lambda>x y. x @ y) xs = Inr (concat xs)"
  by (cases xs) (simp_all add: foldl_append_concat)

lemma map_const_False:
  "map (\<lambda>i. if int i = 0 then dat else PBool False) [Suc 0..<Suc k] = replicate k (PBool False)"
proof -
  have "map (\<lambda>i. if int i = 0 then dat else PBool False) [Suc 0..<Suc k]
      = map (\<lambda>i. PBool False) [Suc 0..<Suc k]"
    by (rule map_cong) auto
  then show ?thesis by (simp add: map_replicate_const)
qed

lemma block_range:
  "map (\<lambda>i. if i = 0 then dat else PBool False) (range_py n) = block_spec (nat n) dat"
proof (cases "nat n")
  case 0
  then show ?thesis by (simp add: range_py_def)
next
  case (Suc k)
  have "[0..<Suc k] = 0 # [Suc 0..<Suc k]" by (simp add: upt_conv_Cons)
  then show ?thesis
    using Suc map_const_False [of dat k] by (simp add: range_py_def comp_def del: upt_Suc)
qed

lemma py_int_pos: "0 < d \<Longrightarrow> py_int d = \<lfloor>d\<rfloor>"
  by (simp add: py_int_def)

lemma length_block_spec: "length (block_spec n dat) = n"
  by (cases n) simp_all

lemma block_spec_if:
  "block_spec n dat = (if n = 0 then [] else dat # replicate (n - 1) (PBool False))"
  by (cases n) simp_all

lemma delay_to_timing_blocks:
  assumes "same_length delays datas"
  shows "delay_to_timing delays datas =
     reduce (\<lambda>x y. x @ y)
       (map (\<lambda>i. block_spec (nat (py_int (delays ! i))) (payload_spec datas i))
          [0..<length delays])"
proof (cases datas)
  case None
  have "map (\<lambda>d. block_spec (nat (py_int d)) (PBool True)) delays =
        map (\<lambda>i. block_spec (nat (py_int (delays ! i))) (PBool True)) [0..<length delays]"
    by (rule nth_equalityI) simp_all
  then show ?thesis
    using None by (simp add: delay_to_timing_def block_range payload_spec_def)
next
  case (Some ds)
  then have len: "length ds = length delays"
    using assms by (simp add: same_length_def)
  have "map (\<lambda>(d, dat). block_spec (nat (py_int d)) dat) (zip delays ds) =
        map (\<lambda>i. block_spec (nat (py_int (delays ! i))) (ds ! i)) [0..<length delays]"
    by (rule nth_equalityI) (simp_all add: len)
  then show ?thesis
    using Some by (simp add: delay_to_timing_def block_range payload_spec_def)
qed

text \<open>
  Claim C3, amended to non-empty lists. For every non-empty list \<open>delays\<close> of positive
  numbers, with \<open>datas\<close> omitted or of the same length, \<^verbatim>\<open>delay_to_timing\<close> returns
  the concatenation, in order, of one block per index \<open>i\<close>; block \<open>i\<close> has
  \<open>\<lfloor>delays[i]\<rfloor>\<close> entries, the first \<open>datas[i]\<close> (or \<^verbatim>\<open>True\<close>), the others
  \<^verbatim>\<open>False\<close>; the total length is the sum of the truncated durations, and a
  duration below 1 contributes the empty block.
\<close>

theorem delay_to_timing_nonempty:
  assumes "delays \<noteq> []"
    and "list_all (\<lambda>d. 0 < d) delays"
    and "same_length delays datas"
  shows "delay_to_timing delays datas =
           Inr (concat (map (\<lambda>i. block_spec (nat \<lfloor>delays ! i\<rfloor>) (payload_spec datas i))
                  [0..<length delays])) \<and>
         length (concat (map (\<lambda>i. block_spec (nat \<lfloor>delays ! i\<rfloor>) (payload_spec datas i))
                  [0..<length delays])) = sum_list (map (\<lambda>d. nat \<lfloor>d\<rfloor>) delays)"
proof -
  have pos: "py_int (delays ! i) = \<lfloor>delays ! i\<rfloor>" if "i < length delays" for i
    using assms(2) that by (simp add: list_all_length py_int_pos)
  have blocks: "map (\<lambda>i. block_spec (nat (py_int (delays ! i))) (payload_spec datas i))
          [0..<length delays] =
        map (\<lambda>i. block_spec (nat \<lfloor>delays ! i\<rfloor>) (payload_spec datas i)) [0..<length delays]"
    by (rule map_cong) (simp_all add: pos)
  have ne: "map (\<lambda>i. block_spec (nat \<lfloor>delays ! i\<rfloor>) (payload_spec datas i)) [0..<length delays] \<noteq> []"
    using assms(1) by simp
  have first: "delay_to_timing delays datas =
           Inr (concat (map (\<lambda>i. block_spec (nat \<lfloor>delays ! i\<rfloor>) (payload_spec datas i))
                  [0..<length delays]))"
    using delay_to_timing_blocks [OF assms(3)] blocks reduce_append [OF ne] by simp
  have "map (\<lambda>i. nat \<lfloor>delays ! i\<rfloor>) [0..<length delays] = map (\<lambda>d. nat \<lfloor>d\<rfloor>) delays"
    by (rule nth_equalityI) simp_all
  then have second: "length (concat (map (\<lambda>i. block_spec (nat \<lfloor>delays ! i\<rfloor>) (payload_spec datas i))
                  [0..<length delays])) = sum_list (map (\<lambda>d. nat \<lfloor>d\<rfloor>) delays)"
    by (simp add: length_concat comp_def length_block_spec)
  show ?thesis using first second by simp
qed

theorem delay_to_timing_nonempty_witness:
  "[5 / 2, 1 / 2, 2 :: rat] \<noteq> [] \<and> list_all (\<lambda>d. 0 < d) [5 / 2, 1 / 2, 2 :: rat] \<and>
   same_length [5 / 2, 1 / 2, 2] (Some [PInt 7, PInt 8, PNone]) \<and>
   delay_to_timing [5 / 2, 1 / 2, 2] (Some [PInt 7, PInt 8, PNone]) =
     Inr [PInt 7, PBool False, PNone, PBool False]"
proof -
  have h1: "[5 / 2, 1 / 2, 2 :: rat] \<noteq> []" by simp
  have h2: "list_all (\<lambda>d. 0 < d) [5 / 2, 1 / 2, 2 :: rat]" by simp
  have h3: "same_length [5 / 2, 1 / 2, 2] (Some [PInt 7, PInt 8, PNone])"
    by (simp add: same_length_def)
  have fl: "\<lfloor>5 / 2 :: rat\<rfloor> = 2" "\<lfloor>1 / 2 :: rat\<rfloor> = 0" "\<lfloor>2 :: rat\<rfloor> = 2"
    by (simp_all add: floor_eq_iff)
  have n: "nat \<lfloor>5 / 2 :: rat\<rfloor> = Suc (Suc 0)" "nat \<lfloor>1 / 2 :: rat\<rfloor> = 0"
      "nat \<lfloor>2 :: rat\<rfloor> = Suc (Suc 0)"
    by (simp_all add: fl numeral_2_eq_2)
  show ?thesis
    using delay_to_timing_nonempty [OF h1 h2 h3] h1 h2 h3
    by (simp add: payload_spec_def n numeral_2_eq_2)
qed

text \<open>
  The claim as stated covers the empty list, where the concatenation of no block is
  the empty sequence; the function raises there instead.
\<close>

theorem delay_to_timing_empty_counterexample:
  "list_all (\<lambda>d. 0 < d) ([] :: rat list) \<and> same_length [] None \<and>
   delay_to_timing [] None \<noteq>
     Inr (concat (map (\<lambda>i. block_spec (nat \<lfloor>([] :: rat list) ! i\<rfloor>) (payload_spec None i))
            [0..<length ([] :: rat list)]))"
  by (simp add: delay_to_timing_def same_length_def)

text \<open>
  Claim C10. On an empty list of delays \<^verbatim>\<open>delay_to_timing\<close> raises (the
  \<^verbatim>\<open>TypeError\<close> of \<^verbatim>\<open>reduce\<close> on an empty sequence with no initial value) instead
  of returning an empty sequence, with or without \<open>datas\<close>; so does the construction
  of a \<^verbatim>\<open>Timing\<close> from it.
\<close>

theorem delay_to_timing_empty:
  "delay_to_timing [] datas = Inl TypeError \<and> Timing_init [] datas = Inl TypeError"
  by (simp add: delay_to_timing_def Timing_init_def split: option.splits)

lemma Timing_drain_all: "Timing_drain self = (t_timing self, StopIteration)"
proof (induction "t_timing self" arbitrary: self)
  case Nil
  then have "t_timing self = []" by simp
  then show ?case by (subst Timing_drain.simps) (simp add: Timing_next_def)
next
  case (Cons x rest)
  from Cons.hyps(2) have it: "t_timing self = x # rest" by simp
  have "Timing_drain (self\<lparr>t_timing := rest\<rparr>) = (rest, StopIteration)"
    using Cons.hyps(1) [of "self\<lparr>t_timing := rest\<rparr>"] by simp
  then show ?case
    using it by (subst Timing_drain.simps) (simp add: Timing_next_def)
qed

lemma Timing_next_stored:
  "t_delays (snd (Timing_next self)) = t_delays self \<and>
   t_datas (snd (Timing_next self)) = t_datas self"
  by (simp add: Timing_next_def split: list.splits)

lemma Timing_advance_stored:
  "t_delays (Timing_advance n self) = t_delays self \<and>
   t_datas (Timing_advance n self) = t_datas self"
  by (induction n arbitrary: self) (simp_all add: Timing_next_stored)

lemma Timing_init_stored:
  "Timing_init delays datas = Inr t \<Longrightarrow> t_delays t = delays \<and> t_datas t = datas"
  by (auto simp: Timing_init_def split: sum.splits)

text \<open>
  Claim C6. Let a \<^verbatim>\<open>Timing\<close> be constructed from \<open>delays\<close> and \<open>datas\<close>. However far
  it has been advanced, restarting it (\<^verbatim>\<open>__iter__\<close>) succeeds and gives an iterator
  that yields the whole sequence of the construction again and then ends; a restart
  of that iterator, itself advanced or not, yields the same sequence, so the truth
  values of the two sequences are identical.
\<close>

theorem Timing_restart_identical:
  assumes "Timing_init delays datas = Inr t"
  shows "\<exists>r1 r2.
     Timing_iter (Timing_advance n t) = Inr r1 \<and>
     Timing_iter (Timing_advance m r1) = Inr r2 \<and>
     Timing_drain r1 = (t_timing t, StopIteration) \<and>
     Timing_drain r2 = (t_timing t, StopIteration) \<and>
     map nonzero (fst (Timing_drain r1)) = map nonzero (fst (Timing_drain r2))"
proof -
  have r1: "Timing_iter (Timing_advance n t) = Inr t"
    using assms Timing_init_stored [OF assms] by (simp add: Timing_iter_def Timing_advance_stored)
  have r2: "Timing_iter (Timing_advance m t) = Inr t"
    using assms Timing_init_stored [OF assms] by (simp add: Timing_iter_def Timing_advance_stored)
  show ?thesis using r1 r2 by (simp add: Timing_drain_all)
qed

theorem Timing_restart_identical_witness:
  "Timing_init [2, 1] (Some [PInt 7, PBool False]) =
     Inr \<lparr>t_delays = [2, 1], t_datas = Some [PInt 7, PBool False],
          t_timing = [TimingElement (PInt 7), TimingElement (PBool False),
                      TimingElement (PBool False)]\<rparr> \<and>
   (\<exists>r1 r2.
      Timing_iter (Timing_advance 2
        \<lparr>t_delays = [2, 1], t_datas = Some [PInt 7, PBool False],
          t_timing = [TimingElement (PInt 7), TimingElement (PBool False),
                      TimingElement (PBool False)]\<rparr>) = Inr r1 \<and>
      Timing_iter (Timing_advance 1 r1) = Inr r2 \<and>
      map nonzero (fst (Timing_drain r1)) = [True, False, False] \<and>
      map nonzero (fst (Timing_drain r2)) = [True, False, False])"
proof -
  let ?t = "\<lparr>t_delays = [2, 1], t_datas = Some [PInt 7, PBool False],
          t_timing = [TimingElement (PInt 7), TimingElement (PBool False),
                      TimingElement (PBool False)]\<rparr>"
  have r: "range_py 2 = [0, 1]" "range_py 1 = [0]"
    by (simp_all add: range_py_def upt_rec numeral_2_eq_2)
  have init: "Timing_init [2, 1] (Some [PInt 7, PBool False]) = Inr ?t"
    by (simp add: Timing_init_def delay_to_timing_def py_int_def r)
  from Timing_restart_identical [OF init, of 2 1]
  obtain r1 r2 where "Timing_iter (Timing_advance 2 ?t) = Inr r1"
    and "Timing_iter (Timing_advance 1 r1) = Inr r2"
    and "Timing_drain r1 = (t_timing ?t, StopIteration)"
    and "Timing_drain r2 = (t_timing ?t, StopIteration)"
    by blast
  then show ?thesis using init by (auto simp: nonzero_def)
qed

section \<open>Properties of simple\_delay\_timing\<close>




lemma genexpr_drain_Nil: "g_iter g = [] \<Longrightarrow> genexpr_drain g = ([], StopIteration)"
  by (subst genexpr_drain.simps) (simp add: genexpr_next_def)

lemma genexpr_drain_Cons:
  "g_iter g = i # rest \<Longrightarrow> g_delay g = Some d \<Longrightarrow> d \<noteq> 0 \<Longrightarrow>
   genexpr_drain g =
     ((if i mod d = 0 then [''dt'' \<mapsto> PInt d] else [''dt'' \<mapsto> PInt 0])
        # fst (genexpr_drain (g\<lparr>g_iter := rest\<rparr>)),
      snd (genexpr_drain (g\<lparr>g_iter := rest\<rparr>)))"
  by (subst genexpr_drain.simps)
    (simp add: genexpr_next_def py_mod_def pyint_def TimeControlSet_init_def)

lemma genexpr_drain_all:
  "g_delay g = Some d \<Longrightarrow> d \<noteq> 0 \<Longrightarrow>
   genexpr_drain g =
     (map (\<lambda>i. if i mod d = 0 then [''dt'' \<mapsto> PInt d] else [''dt'' \<mapsto> PInt 0]) (g_iter g),
      StopIteration)"
proof (induction "g_iter g" arbitrary: g)
  case Nil
  then have "g_iter g = []" by simp
  then show ?case by (simp add: genexpr_drain_Nil)
next
  case (Cons i rest)
  from Cons.hyps(2) have it: "g_iter g = i # rest" by simp
  have "genexpr_drain (g\<lparr>g_iter := rest\<rparr>) =
     (map (\<lambda>i. if i mod d = 0 then [''dt'' \<mapsto> PInt d] else [''dt'' \<mapsto> PInt 0]) rest,
      StopIteration)"
    using Cons.hyps(1) [of "g\<lparr>g_iter := rest\<rparr>"] Cons.prems by simp
  then show ?case
    using genexpr_drain_Cons [OF it Cons.prems] it by simp
qed

text \<open>
  Claim C5. For a positive integer \<open>delay\<close> and a non-negative integer \<open>steps\<close>,
  \<^verbatim>\<open>simple_delay_timing(delay, steps)\<close> is created without error and, consumed to its
  end, yields exactly \<open>steps\<close> bundles and then \<^verbatim>\<open>StopIteration\<close>; bundle \<open>i\<close> is
  \<^verbatim>\<open>TimeControlSet(dt=delay)\<close> when \<open>i\<close> is a multiple of \<open>delay\<close> and
  \<^verbatim>\<open>TimeControlSet(dt=0)\<close> otherwise. The witness is \<open>delay = 3\<close>, \<open>steps = 9\<close>,
  with the \<open>dt\<close> values 3, 0, 0, 3, 0, 0, 3, 0, 0.
\<close>

theorem simple_delay_timing_yields:
  assumes "0 < delay" and "0 \<le> steps"
  shows "\<exists>g bundles.
     simple_delay_timing (Some delay) (Some steps) = Inr g \<and>
     genexpr_drain g = (bundles, StopIteration) \<and>
     int (length bundles) = steps \<and>
     (\<forall>i < nat steps.
        bundles ! i = [''dt'' \<mapsto> PInt (if delay dvd int i then delay else 0)])"
proof -
  let ?g = "\<lparr>g_delay = Some delay, g_iter = range_py steps\<rparr>"
  let ?f = "\<lambda>i. if i mod delay = 0 then [''dt'' \<mapsto> PInt delay] else [''dt'' \<mapsto> PInt 0]"
  have g: "simple_delay_timing (Some delay) (Some steps) = Inr ?g"
    by (simp add: simple_delay_timing_def)
  have d: "genexpr_drain ?g = (map ?f (range_py steps), StopIteration)"
    using genexpr_drain_all [of ?g delay] assms(1) by simp
  have len: "int (length (map ?f (range_py steps))) = steps"
    using assms(2) by (simp add: range_py_def)
  have nth: "map ?f (range_py steps) ! i = [''dt'' \<mapsto> PInt (if delay dvd int i then delay else 0)]"
    if "i < nat steps" for i
    using that by (simp add: range_py_def dvd_eq_mod_eq_0)
  show ?thesis using g d len nth by blast
qed

theorem simple_delay_timing_yields_witness:
  "(0::int) < 3 \<and> (0::int) \<le> 9 \<and>
   (\<exists>g bundles. simple_delay_timing (Some 3) (Some 9) = Inr g \<and>
      genexpr_drain g = (bundles, StopIteration) \<and>
      map (\<lambda>b. b ''dt'') bundles =
        map (\<lambda>v. Some (PInt v)) [3, 0, 0, 3, 0, 0, 3, 0, 0])"
proof -
  from simple_delay_timing_yields [of 3 9]
  obtain g bundles where g: "simple_delay_timing (Some 3) (Some 9) = Inr g"
    and d: "genexpr_drain g = (bundles, StopIteration)"
    and len: "int (length bundles) = 9"
    and nth: "\<forall>i < nat 9. bundles ! i = [''dt'' \<mapsto> PInt (if 3 dvd int i then 3 else 0)]"
    by auto
  have l9: "length bundles = 9" using len by simp
  have "map (\<lambda>b. b ''dt'') bundles = map (\<lambda>v. Some (PInt v)) [3, 0, 0, 3, 0, 0, 3, 0, 0]"
  proof (rule nth_equalityI)
    show "length (map (\<lambda>b. b ''dt'') bundles) =
          length (map (\<lambda>v. Some (PInt v)) [3, 0, 0, 3, 0, 0, 3, 0, 0])"
      using l9 by simp
  next
    fix i assume "i < length (map (\<lambda>b. b ''dt'') bundles)"
    then have i: "i < 9" using l9 by simp
    then have "i \<in> {0, 1, 2, 3, 4, 5, 6, 7, 8}" by auto
    then show "map (\<lambda>b. b ''dt'') bundles ! i =
          map (\<lambda>v. Some (PInt v)) [3, 0, 0, 3, 0, 0, 3, 0, 0] ! i"
      using nth l9 i by (auto simp: nth_Cons')
  qed
  then show ?thesis using g d by auto
qed

section \<open>Properties of TimeControl\<close>

lemma simple_delay_timing_default:
  "simple_delay_timing (Some 1) (Some 1) = Inr \<lparr>g_delay = Some 1, g_iter = [0]\<rparr>"
  by (simp add: simple_delay_timing_def range_py_def)

lemma TimeControl_take_Fallback:
  "tc_timing self = Fallback g \<Longrightarrow> TimeControl_take n self = genexpr_take n g"
  by (induction n arbitrary: self g) (simp_all add: TimeControl_next_def stepiter_next_def)

lemma TimeControl_init_fallback:
  assumes "call_timing m delay steps weather start_date = Inl e"
    and "Inr g = (case simple_delay_timing delay steps of
                    Inr g' \<Rightarrow> Inr g'
                  | Inl e' \<Rightarrow> simple_delay_timing (Some 1) (Some 1))"
  shows "TimeControl_init delay steps m weather start_date =
     (if m \<noteq> None then [''Warning : not able to call model.timing correctly !!!''] else [],
      Inr \<lparr>tc_delay = delay, tc_steps = steps, tc_model = m, tc_weather = weather,
           tc_start_date = start_date, tc_timing = Fallback g\<rparr>)"
  using assms
  by (auto simp: TimeControl_init_def Let_def simple_delay_timing_default split: sum.splits)

lemma fallback_generator_exists:
  "\<exists>g. Inr g = (case simple_delay_timing delay steps of
                   Inr g' \<Rightarrow> Inr g'
                 | Inl e' \<Rightarrow> simple_delay_timing (Some 1) (Some 1))"
  by (auto simp: simple_delay_timing_default split: sum.splits)

text \<open>
  Claim C7, amended to a failure at the call. When the timing capability of the
  model is missing or raises when it is called, the constructor does not raise: it
  prints the warning and returns a \<^verbatim>\<open>TimeControl\<close> whose generator \<open>g\<close> is
  \<^verbatim>\<open>simple_delay_timing(delay, steps)\<close>, or \<^verbatim>\<open>simple_delay_timing()\<close> when that
  cannot be created; the constructor with \<^verbatim>\<open>model = None\<close> and the same \<open>delay\<close> and
  \<open>steps\<close> returns the same generator and prints nothing. Any number \<open>n\<close> of calls of
  \<^verbatim>\<open>next\<close> gives on both what \<open>n\<close> calls give on \<open>g\<close>, and a restart
  (\<^verbatim>\<open>__iter__\<close>) of either rebuilds the same object.
\<close>

theorem TimeControl_raising_model_as_no_model:
  assumes "call_timing (Some m) delay steps weather start_date = Inl e"
  shows "\<exists>tc1 tc2 g.
     Inr g = (case simple_delay_timing delay steps of
                Inr g' \<Rightarrow> Inr g'
              | Inl e' \<Rightarrow> simple_delay_timing (Some 1) (Some 1)) \<and>
     TimeControl_init delay steps (Some m) weather start_date =
       ([''Warning : not able to call model.timing correctly !!!''], Inr tc1) \<and>
     TimeControl_init delay steps None weather start_date = ([], Inr tc2) \<and>
     tc_timing tc1 = Fallback g \<and> tc_timing tc2 = Fallback g \<and>
     TimeControl_take n tc1 = genexpr_take n g \<and>
     TimeControl_take n tc2 = genexpr_take n g \<and>
     TimeControl_iter tc1 =
       ([''Warning : not able to call model.timing correctly !!!''], Inr tc1) \<and>
     TimeControl_iter tc2 = ([], Inr tc2)"
proof -
  obtain g where g: "Inr g = (case simple_delay_timing delay steps of
                Inr g' \<Rightarrow> Inr g'
              | Inl e' \<Rightarrow> simple_delay_timing (Some 1) (Some 1))"
    using fallback_generator_exists by blast
  let ?tc = "\<lambda>m. \<lparr>tc_delay = delay, tc_steps = steps, tc_model = m, tc_weather = weather,
           tc_start_date = start_date, tc_timing = Fallback g\<rparr>"
  have none: "call_timing None delay steps weather start_date = Inl AttributeError"
    by (simp add: call_timing_def)
  have 1: "TimeControl_init delay steps (Some m) weather start_date =
       ([''Warning : not able to call model.timing correctly !!!''], Inr (?tc (Some m)))"
    using TimeControl_init_fallback [OF assms g] by simp
  have 2: "TimeControl_init delay steps None weather start_date = ([], Inr (?tc None))"
    using TimeControl_init_fallback [OF none g] by simp
  have t1: "TimeControl_take n (?tc (Some m)) = genexpr_take n g"
    by (rule TimeControl_take_Fallback) simp
  have t2: "TimeControl_take n (?tc None) = genexpr_take n g"
    by (rule TimeControl_take_Fallback) simp
  have i1: "TimeControl_iter (?tc (Some m)) =
       ([''Warning : not able to call model.timing correctly !!!''], Inr (?tc (Some m)))"
    using 1 by (simp add: TimeControl_iter_def)
  have i2: "TimeControl_iter (?tc None) = ([], Inr (?tc None))"
    using 2 by (simp add: TimeControl_iter_def)
  show ?thesis
    by (rule exI [of _ "?tc (Some m)"], rule exI [of _ "?tc None"], rule exI [of _ g])
      (simp only: g [symmetric] 1 2 t1 t2 i1 i2 TimeControl.simps simp_thms)
qed


theorem TimeControl_raising_model_as_no_model_witness:
  "call_timing (Some (Model (Some (\<lambda>delay steps weather start_date. Inl (Raised ''boom'')))))
     (Some 2) (Some 3) PNone PNone = Inl (Raised ''boom'') \<and>
   (\<exists>tc1 tc2.
     TimeControl_init (Some 2) (Some 3)
       (Some (Model (Some (\<lambda>delay steps weather start_date. Inl (Raised ''boom'')))))
       PNone PNone =
       ([''Warning : not able to call model.timing correctly !!!''], Inr tc1) \<and>
     TimeControl_init (Some 2) (Some 3) None PNone PNone = ([], Inr tc2) \<and>
     map (map_sum id (\<lambda>b. b ''dt'')) (TimeControl_take 4 tc1) =
       [Inr (Some (PInt 2)), Inr (Some (PInt 0)), Inr (Some (PInt 2)), Inl StopIteration] \<and>
     map (map_sum id (\<lambda>b. b ''dt'')) (TimeControl_take 4 tc2) =
       [Inr (Some (PInt 2)), Inr (Some (PInt 0)), Inr (Some (PInt 2)), Inl StopIteration])"
proof -
  let ?m = "Model (Some (\<lambda>delay steps weather start_date. Inl (Raised ''boom'')))"
  have h: "call_timing (Some ?m) (Some 2) (Some 3) PNone PNone = Inl (Raised ''boom'')"
    by (simp add: call_timing_def)
  from TimeControl_raising_model_as_no_model [OF h, of 4]
  obtain tc1 tc2 g
    where g: "Inr g = (case simple_delay_timing (Some 2) (Some 3) of
                Inr g' \<Rightarrow> Inr g'
              | Inl e' \<Rightarrow> simple_delay_timing (Some 1) (Some 1))"
      and 1: "TimeControl_init (Some 2) (Some 3) (Some ?m) PNone PNone =
       ([''Warning : not able to call model.timing correctly !!!''], Inr tc1)"
      and 2: "TimeControl_init (Some 2) (Some 3) None PNone PNone = ([], Inr tc2)"
      and t1: "TimeControl_take 4 tc1 = genexpr_take 4 g"
      and t2: "TimeControl_take 4 tc2 = genexpr_take 4 g"
    by blast
  have r: "range_py 3 = [0, 1, 2]"
    by (simp add: range_py_def upt_rec numeral_3_eq_3)
  have gv: "g = \<lparr>g_delay = Some 2, g_iter = [0, 1, 2]\<rparr>"
    using g by (simp add: simple_delay_timing_def r)
  have vals: "map (map_sum id (\<lambda>b. b ''dt'')) (genexpr_take 4 g) =
       [Inr (Some (PInt 2)), Inr (Some (PInt 0)), Inr (Some (PInt 2)), Inl StopIteration]"
    unfolding gv
    by (simp add: numeral_eq_Suc genexpr_next_def py_mod_def pyint_def TimeControlSet_init_def)
  show ?thesis
    by (rule conjI [OF h], rule exI [of _ tc1], rule exI [of _ tc2])
      (simp only: 1 2 t1 t2 vals simp_thms)
qed

text \<open>
  The claim as stated covers every way in which the timing capability can raise. A
  \<^verbatim>\<open>timing\<close> written as a generator returns normally when called and raises when it
  is first advanced; the \<^verbatim>\<open>try\<close> of the constructor encloses the call only, so no
  fallback is built, no warning is printed, and the exception reaches the caller of
  \<^verbatim>\<open>next\<close>, where the scheduler built with \<^verbatim>\<open>model = None\<close> yields a bundle.
\<close>

theorem TimeControl_lazy_model_failure_counterexample:
  "\<exists>tc1 tc2.
     TimeControl_init (Some 2) (Some 3)
       (Some (Model (Some (\<lambda>delay steps weather start_date.
          Inr (\<lambda>k. if k = 0 then Inl (Raised ''boom'') else Inl StopIteration)))))
       PNone PNone = ([], Inr tc1) \<and>
     TimeControl_init (Some 2) (Some 3) None PNone PNone = ([], Inr tc2) \<and>
     fst (TimeControl_next tc1) = Inl (Raised ''boom'') \<and>
     map_sum id (\<lambda>b. b ''dt'') (fst (TimeControl_next tc2)) = Inr (Some (PInt 2)) \<and>
     TimeControl_take 1 tc1 \<noteq> TimeControl_take 1 tc2"
proof -
  have r: "range_py 3 = [0, 1, 2]"
    by (simp add: range_py_def upt_rec numeral_3_eq_3)
  show ?thesis
    by (simp add: TimeControl_init_def call_timing_def simple_delay_timing_def r
        TimeControl_next_def stepiter_next_def genexpr_next_def py_mod_def pyint_def
        TimeControlSet_init_def)
qed

lemma TimeControl_init_returns:
  "\<exists>tc. snd (TimeControl_init delay steps m weather start_date) = Inr tc"
  by (auto simp: TimeControl_init_def Let_def simple_delay_timing_default split: sum.splits)

text \<open>
  Claim C2. The constructor never raises (\<open>TimeControl_init_returns\<close>), and an invalid
  \<open>steps\<close> is replaced by the default schedule. An invalid \<open>delay\<close> with a valid
  \<open>steps\<close> is not: \<^verbatim>\<open>simple_delay_timing(delay, steps)\<close> only creates the generator,
  so the inner \<^verbatim>\<open>try\<close> sees no failure, and the division \<^verbatim>\<open>i % delay\<close> fails at
  the first advance. For \<^verbatim>\<open>TimeControl(delay=0, steps=3)\<close> the constructor returns
  an object whose first \<^verbatim>\<open>next\<close> raises \<^verbatim>\<open>ZeroDivisionError\<close>.
\<close>

theorem TimeControl_lazy_delay_error:
  "\<exists>tc. TimeControl_init (Some 0) (Some 3) None PNone PNone = ([], Inr tc) \<and>
     tc_timing tc = Fallback \<lparr>g_delay = Some 0, g_iter = [0, 1, 2]\<rparr> \<and>
     fst (TimeControl_next tc) = Inl ZeroDivisionError"
proof -
  have r: "range_py 3 = [0, 1, 2]"
    by (simp add: range_py_def upt_rec numeral_3_eq_3)
  show ?thesis
    by (simp add: TimeControl_init_def call_timing_def simple_delay_timing_def r
        TimeControl_next_def stepiter_next_def genexpr_next_def py_mod_def)
qed

section \<open>Properties of time\_split\<close>

lemma py_fmod_zero_iff:
  assumes "delay \<noteq> 0"
  shows "\<exists>r. py_fmod t delay = Inr r \<and> (r = 0) = exact_multiple t delay"
proof -
  let ?r = "t - of_int \<lfloor>t / of_int delay\<rfloor> * of_int delay"
  have d: "(of_int delay :: rat) \<noteq> 0" using assms by simp
  have "exact_multiple t delay" if "?r = 0"
    unfolding exact_multiple_def using that by (intro exI [of _ "\<lfloor>t / of_int delay\<rfloor>"]) simp
  moreover have "?r = 0" if "exact_multiple t delay"
  proof -
    from that obtain k :: int where k: "t = of_int k * of_int delay"
      unfolding exact_multiple_def by blast
    then have "t / of_int delay = of_int k" using d by simp
    then have "\<lfloor>t / of_int delay\<rfloor> = k" by simp
    then show ?thesis using k by simp
  qed
  ultimately have "(?r = 0) = exact_multiple t delay" by blast
  moreover have "py_fmod t delay = Inr ?r" using assms by (simp add: py_fmod_def)
  ultimately show ?thesis by blast
qed

lemma filter_mask_multiples:
  assumes "delay \<noteq> 0"
  shows "filter_mask time delay = Inr (map (\<lambda>t. exact_multiple t delay) time)"
proof (induction time)
  case Nil
  show ?case by simp
next
  case (Cons t time)
  from py_fmod_zero_iff [OF assms, of t]
  obtain r where "py_fmod t delay = Inr r" and "(r = 0) = exact_multiple t delay"
    by blast
  then show ?case using Cons.IH by simp
qed

lemma mask_select_map: "mask_select xs (map p xs) = filter p xs"
  by (induction xs) (simp_all add: mask_select_def)

lemma block_starts_first:
  "time_sequence \<noteq> [] \<Longrightarrow> hd time_sequence \<in> set (block_starts time_sequence delay)"
proof -
  assume "time_sequence \<noteq> []"
  moreover have "exact_multiple (hours (hd time_sequence) (hd time_sequence)) delay"
    unfolding exact_multiple_def hours_def by (intro exI [of _ 0]) simp
  ultimately show ?thesis by (simp add: block_starts_def)
qed

lemma time_split_general:
  assumes "time_sequence \<noteq> []" and "delay \<noteq> 0"
  shows "time_split time_sequence None delay =
           Inr (map2 (\<lambda>start end. hours end start)
                  (block_starts time_sequence delay) (block_ends time_sequence delay),
                map2 (\<lambda>start end. None)
                  (block_starts time_sequence delay) (block_ends time_sequence delay))"
    and "time_split time_sequence (Some slice) delay =
           Inr (map2 (\<lambda>start end. hours end start)
                  (block_starts time_sequence delay) (block_ends time_sequence delay),
                map2 (\<lambda>start end. Some (slice start end))
                  (block_starts time_sequence delay) (block_ends time_sequence delay))"
proof -
  obtain t0 ts where ts: "time_sequence = t0 # ts"
    using assms(1) by (cases time_sequence) auto
  have flags: "filter_mask (map (\<lambda>t. hours t t0) time_sequence) delay =
      Inr (map (\<lambda>t. exact_multiple (hours t t0) delay) time_sequence)"
    using filter_mask_multiples [OF assms(2)] by (simp add: comp_def)
  have starts: "mask_select time_sequence (map (\<lambda>t. exact_multiple (hours t t0) delay) time_sequence) =
      block_starts time_sequence delay"
  proof -
    have "hd time_sequence = t0" by (simp add: ts)
    then show ?thesis by (simp only: mask_select_map block_starts_def)
  qed
  have ne: "block_starts time_sequence delay \<noteq> []"
    using block_starts_first [OF assms(1), of delay] by auto
  have ends: "tl (block_starts time_sequence delay) @ [timestamp_succ (last time_sequence)] =
      block_ends time_sequence delay"
    by (simp add: block_ends_def timestamp_succ_def)
  have ne': "zip (block_starts time_sequence delay) (block_ends time_sequence delay) \<noteq> []"
    using ne by (cases "block_starts time_sequence delay") (simp_all add: block_ends_def)
  have time: "(case time_sequence of [] \<Rightarrow> [] | t0 # ts \<Rightarrow> map (\<lambda>t. hours t t0) time_sequence) =
      map (\<lambda>t. hours t t0) time_sequence"
    by (simp add: ts)
  show "time_split time_sequence None delay =
           Inr (map2 (\<lambda>start end. hours end start)
                  (block_starts time_sequence delay) (block_ends time_sequence delay),
                map2 (\<lambda>start end. None)
                  (block_starts time_sequence delay) (block_ends time_sequence delay))"
    unfolding time_split_def time Let_def flags
    using assms(1) ne' by (simp add: starts ends comp_def case_prod_beta)
  show "time_split time_sequence (Some slice) delay =
           Inr (map2 (\<lambda>start end. hours end start)
                  (block_starts time_sequence delay) (block_ends time_sequence delay),
                map2 (\<lambda>start end. Some (slice start end))
                  (block_starts time_sequence delay) (block_ends time_sequence delay))"
    unfolding time_split_def time Let_def flags
    using assms(1) ne' by (simp add: starts ends comp_def case_prod_beta)
qed

lemma exact_multiple_hours:
  "exact_multiple (hours t t0) delay = ((3600 * delay) dvd (t - t0))"
proof
  assume "exact_multiple (hours t t0) delay"
  then obtain k :: int where "(of_int (t - t0) :: rat) / 3600 = of_int k * of_int delay"
    unfolding exact_multiple_def hours_def by blast
  then have "(of_int (t - t0) :: rat) = of_int (3600 * delay * k)" by simp
  then have "t - t0 = 3600 * delay * k" by (simp only: of_int_eq_iff)
  then show "(3600 * delay) dvd (t - t0)" by simp
next
  assume "(3600 * delay) dvd (t - t0)"
  then obtain k where "t - t0 = 3600 * delay * k" by (auto simp: dvd_def)
  then have "(of_int (t - t0) :: rat) / 3600 = of_int k * of_int delay" by simp
  then show "exact_multiple (hours t t0) delay"
    unfolding exact_multiple_def hours_def by blast
qed


lemma block_starts_dvd:
  "block_starts time_sequence delay =
     filter (\<lambda>t. (3600 * delay) dvd (t - hd time_sequence)) time_sequence"
  by (simp add: block_starts_def exact_multiple_hours)

lemma hourly_24:
  "map (\<lambda>i. t0 + 3600 * int i) [0..<24] =
     [t0, t0 + 3600, t0 + 7200, t0 + 10800, t0 + 14400, t0 + 18000,
      t0 + 21600, t0 + 25200, t0 + 28800, t0 + 32400, t0 + 36000, t0 + 39600,
      t0 + 43200, t0 + 46800, t0 + 50400, t0 + 54000, t0 + 57600, t0 + 61200,
      t0 + 64800, t0 + 68400, t0 + 72000, t0 + 75600, t0 + 79200, t0 + 82800]"
  by (simp add: upt_rec eval_nat_numeral)

lemma time_split_hourly_24:
  "time_split (map (\<lambda>i. t0 + 3600 * int i) [0..<24]) None 6 =
     Inr ([6, 6, 6, 6], [None, None, None, None])"
proof -
  let ?ts = "map (\<lambda>i. t0 + 3600 * int i) [0..<24]"
  have ne: "?ts \<noteq> []" by simp
  have starts: "block_starts ?ts 6 = [t0, t0 + 21600, t0 + 43200, t0 + 64800]"
    unfolding hourly_24 block_starts_dvd by simp
  have ends: "block_ends ?ts 6 = [t0 + 21600, t0 + 43200, t0 + 64800, t0 + 86400]"
    unfolding block_ends_def starts unfolding hourly_24 by simp
  show ?thesis
    using time_split_general(1) [OF ne, of 6]
    unfolding starts ends by (simp add: hours_def)
qed

text \<open>
  Claim C4, amended to non-empty sequences and non-zero \<open>delay\<close>. For every non-empty
  timestamp sequence (strictly increasing or not) and every \<open>delay \<noteq> 0\<close>,
  \<^verbatim>\<open>time_split\<close> returns, with or without a weather table, one duration per block,
  where the block starts are exactly the timestamps whose offset in hours from the
  first timestamp is an exact multiple of \<open>delay\<close> (the first timestamp is one), each
  block ends at the next start and the last block ends one hour past the final
  timestamp. Over 24 hourly timestamps from any \<open>t0\<close>, with \<open>delay = 6\<close>, the result
  is 4 blocks of 6 hours each.
\<close>

theorem time_split_blocks:
  assumes "time_sequence \<noteq> []" and "delay \<noteq> 0"
  shows "time_split time_sequence (None :: (int \<Rightarrow> int \<Rightarrow> 'd) option) delay =
           Inr (map2 (\<lambda>start end. hours end start)
                  (block_starts time_sequence delay) (block_ends time_sequence delay),
                map2 (\<lambda>start end. None)
                  (block_starts time_sequence delay) (block_ends time_sequence delay)) \<and>
         time_split time_sequence (Some (slice :: int \<Rightarrow> int \<Rightarrow> 'd)) delay =
           Inr (map2 (\<lambda>start end. hours end start)
                  (block_starts time_sequence delay) (block_ends time_sequence delay),
                map2 (\<lambda>start end. Some (slice start end))
                  (block_starts time_sequence delay) (block_ends time_sequence delay)) \<and>
         hd (block_starts time_sequence delay) = hd time_sequence \<and>
         length (block_ends time_sequence delay) = length (block_starts time_sequence delay) \<and>
         last (block_ends time_sequence delay) = last time_sequence + 3600 \<and>
         time_split (map (\<lambda>i. t0 + 3600 * int i) [0..<24])
             (None :: (int \<Rightarrow> int \<Rightarrow> 'd) option) 6 =
           Inr ([6, 6, 6, 6], [None, None, None, None])"
proof -
  have first: "hd (block_starts time_sequence delay) = hd time_sequence"
  proof -
    obtain t ts where ts: "time_sequence = t # ts"
      using assms(1) by (cases time_sequence) auto
    have "exact_multiple (hours t t) delay"
      unfolding exact_multiple_def hours_def by (intro exI [of _ 0]) simp
    then show ?thesis by (simp add: block_starts_def ts)
  qed
  have ne: "block_starts time_sequence delay \<noteq> []"
    using block_starts_first [OF assms(1), of delay] by auto
  have len: "length (block_ends time_sequence delay) = length (block_starts time_sequence delay)"
    using ne by (simp add: block_ends_def)
  have lst: "last (block_ends time_sequence delay) = last time_sequence + 3600"
    by (simp add: block_ends_def)
  show ?thesis
    by (intro conjI)
      (rule time_split_general(1) [OF assms], rule time_split_general(2) [OF assms],
        rule first, rule len, rule lst, rule time_split_hourly_24)
qed

text \<open>The witness is an irregular sequence: the last block spans from 2 h to one
  hour past 2 h 30 min.\<close>

theorem time_split_blocks_witness:
  "[0, 1800, 3600, 7200, 9000 :: int] \<noteq> [] \<and> (1 :: int) \<noteq> 0 \<and>
   block_starts [0, 1800, 3600, 7200, 9000] 1 = [0, 3600, 7200] \<and>
   block_ends [0, 1800, 3600, 7200, 9000] 1 = [3600, 7200, 12600] \<and>
   time_split [0, 1800, 3600, 7200, 9000] (None :: (int \<Rightarrow> int \<Rightarrow> unit) option) 1 =
     Inr ([1, 1, 3 / 2], [None, None, None])"
proof -
  have h1: "[0, 1800, 3600, 7200, 9000 :: int] \<noteq> []" by simp
  have h2: "(1 :: int) \<noteq> 0" by simp
  have starts: "block_starts [0, 1800, 3600, 7200, 9000] 1 = [0, 3600, 7200]"
    unfolding block_starts_dvd by simp
  have ends: "block_ends [0, 1800, 3600, 7200, 9000] 1 = [3600, 7200, 12600]"
    unfolding block_ends_def starts by simp
  from time_split_blocks [OF h1 h2]
  have "time_split [0, 1800, 3600, 7200, 9000] (None :: (int \<Rightarrow> int \<Rightarrow> unit) option) 1 =
     Inr (map2 (\<lambda>start end. hours end start)
            (block_starts [0, 1800, 3600, 7200, 9000] 1) (block_ends [0, 1800, 3600, 7200, 9000] 1),
          map2 (\<lambda>start end. None)
            (block_starts [0, 1800, 3600, 7200, 9000] 1) (block_ends [0, 1800, 3600, 7200, 9000] 1))"
    by blast
  then have "time_split [0, 1800, 3600, 7200, 9000] (None :: (int \<Rightarrow> int \<Rightarrow> unit) option) 1 =
     Inr ([1, 1, 3 / 2], [None, None, None])"
    unfolding starts ends by (simp add: hours_def)
  then show ?thesis using h1 h2 starts ends by simp
qed

lemma time_split_errors:
  "time_split [] weather_data delay = Inl IndexError"
  "time_sequence \<noteq> [] \<Longrightarrow> time_split time_sequence weather_data 0 = Inl ZeroDivisionError"
  by (cases time_sequence; simp add: time_split_def py_fmod_def)+

text \<open>
  The claim as stated does not restrict \<open>delay\<close>. For \<open>delay = 0\<close> the only exact
  multiple is the offset 0, so the claim gives the single block from the first
  timestamp to one hour past the last; \<^verbatim>\<open>t % delay\<close> raises instead.
\<close>

theorem time_split_zero_delay_counterexample:
  "time_split [0, 3600] (None :: (int \<Rightarrow> int \<Rightarrow> unit) option) 0 = Inl ZeroDivisionError \<and>
   block_starts [0, 3600] 0 = [0] \<and> block_ends [0, 3600] 0 = [7200]"
proof -
  have "block_starts [0, 3600] 0 = [0]"
    unfolding block_starts_dvd by simp
  then show ?thesis
    by (simp add: block_ends_def time_split_def py_fmod_def hours_def)
qed

section \<open>Properties of TimeControler\<close>

lemma dict_genexpr_all_yield:
  "\<forall>(k, v) \<in> set td. \<exists>x v'. next v = (Inr x, v') \<Longrightarrow>
   \<exists>d. fst (dict_genexpr next td) = Inr d \<and> map fst d = map fst td"
proof (induction td)
  case Nil
  show ?case by simp
next
  case (Cons kv td)
  obtain k v where kv: "kv = (k, v)" by (cases kv)
  from Cons.prems kv obtain x v' where n: "next v = (Inr x, v')" by auto
  from Cons obtain d where d: "fst (dict_genexpr next td) = Inr d" "map fst d = map fst td"
    by auto
  show ?case using kv n d by (cases "dict_genexpr next td") simp
qed

lemma TimeControler_next_all_yield:
  assumes "timedict self \<noteq> []"
    and "\<forall>(k, v) \<in> set (timedict self). \<exists>x v'. next v = (Inr x, v')"
  shows "\<exists>d. fst (TimeControler_next next self) = Inr d \<and> map fst d = map fst (timedict self)"
proof -
  from dict_genexpr_all_yield [OF assms(2)]
  obtain d where d: "fst (dict_genexpr next (timedict self)) = Inr d"
      "map fst d = map fst (timedict self)"
    by blast
  then have "d \<noteq> []" using assms(1) by auto
  then show ?thesis
    using d by (cases "dict_genexpr next (timedict self)") (simp add: TimeControler_next_def)
qed

lemma TimeControler_next_first_exhausted:
  assumes "timedict self = (k, v) # rest" and "fst (next v) = Inl StopIteration"
  shows "fst (TimeControler_next next self) = Inl StopIteration"
  using assms by (cases "next v") (simp add: TimeControler_next_def)

lemma range_py_5: "range_py 5 = [0, 1, 2, 3, 4]"
  by (simp add: range_py_def upt_rec eval_nat_numeral)

lemma range_py_3: "range_py 3 = [0, 1, 2]"
  by (simp add: range_py_def upt_rec eval_nat_numeral)

lemma Timing_init_5:
  "Timing_init [5] None =
     Inr \<lparr>t_delays = [5], t_datas = None,
          t_timing = map TimingElement
            [PBool True, PBool False, PBool False, PBool False, PBool False]\<rparr>"
  by (simp add: Timing_init_def delay_to_timing_def py_int_def range_py_5)

lemma Timing_init_3:
  "Timing_init [3] None =
     Inr \<lparr>t_delays = [3], t_datas = None,
          t_timing = map TimingElement [PBool True, PBool False, PBool False]\<rparr>"
  by (simp add: Timing_init_def delay_to_timing_def py_int_def range_py_3)

text \<open>
  Claim C1. While every stream yields an item, \<^verbatim>\<open>next\<close> returns a mapping with one
  item per stream (\<open>TimeControler_next_all_yield\<close>), and it raises
  \<^verbatim>\<open>StopIteration\<close> when the stream visited first is exhausted
  (\<open>TimeControler_next_first_exhausted\<close>). When a stream visited later is exhausted,
  the \<^verbatim>\<open>StopIteration\<close> of its \<^verbatim>\<open>next\<close> only ends the generator expression inside
  \<^verbatim>\<open>dict(...)\<close>, and the test \<^verbatim>\<open>len(d) == 0\<close> does not see it. With
  \<^verbatim>\<open>a = Timing([5])\<close> (5 items) visited before \<^verbatim>\<open>b = Timing([3])\<close> (3 items), the
  controler yields three mappings with both keys, then two mappings with the key
  \<open>a\<close> alone, and raises \<^verbatim>\<open>StopIteration\<close> at the sixth call; the keys of each
  result are listed below.
\<close>

theorem TimeControler_partial_mapping:
  "\<exists>a b c.
     Timing_init [5] None = Inr a \<and> length (fst (Timing_drain a)) = 5 \<and>
     Timing_init [3] None = Inr b \<and> length (fst (Timing_drain b)) = 3 \<and>
     TimeControler_iter Timing_iter (TimeControler_init [(''a'', a), (''b'', b)]) = Inr c \<and>
     map (map_sum id (map fst)) (TimeControler_take Timing_next 6 c) =
       [Inr [''a'', ''b''], Inr [''a'', ''b''], Inr [''a'', ''b''],
        Inr [''a''], Inr [''a''], Inl StopIteration]"
proof -
  let ?a = "\<lparr>t_delays = [5], t_datas = None,
          t_timing = map TimingElement
            [PBool True, PBool False, PBool False, PBool False, PBool False]\<rparr>"
  let ?b = "\<lparr>t_delays = [3], t_datas = None,
          t_timing = map TimingElement [PBool True, PBool False, PBool False]\<rparr>"
  let ?c = "\<lparr>timedict = [(''a'', ?a), (''b'', ?b)], numiter = 0\<rparr>"
  have it: "TimeControler_iter Timing_iter (TimeControler_init [(''a'', ?a), (''b'', ?b)]) = Inr ?c"
    using Timing_init_5 Timing_init_3
    by (simp add: TimeControler_iter_def TimeControler_init_def Timing_iter_def)
  have run: "map (map_sum id (map fst)) (TimeControler_take Timing_next 6 ?c) =
       [Inr [''a'', ''b''], Inr [''a'', ''b''], Inr [''a'', ''b''],
        Inr [''a''], Inr [''a''], Inl StopIteration]"
    by (simp add: eval_nat_numeral TimeControler_next_def Timing_next_def)
  have da: "length (fst (Timing_drain ?a)) = 5"
    by (simp add: Timing_drain_all)
  have db: "length (fst (Timing_drain ?b)) = 3"
    by (simp add: Timing_drain_all)
  show ?thesis
    by (rule exI [of _ ?a], rule exI [of _ ?b], rule exI [of _ ?c])
      (simp only: Timing_init_5 Timing_init_3 it run da db simp_thms)
qed

end
